theory Spec2Isabelle
  imports Complex_Main "HOL-Library.Word"
begin

section \<open>Values shared by the sender monitor and the transaction manager\<close>

text \<open>
  An \<open>ethcommon.Address\<close> is 20 bytes. Errors are values: the messages the monitor
  builds itself are constructors, an error handed over by a collaborator (Broker,
  SenderManager, TicketStore) is \<open>CollaboratorError\<close> with its message.
\<close>

type_synonym address = "160 word"

datatype error =
    CollaboratorError string
  | InsufficientPendingAmount
  | MaxFloatIsZero
  | InsufficientMaxFloat address int int
  | CouldNotGetSenderInfo address error
  | UnlockSoon address

text \<open>
  A Go call either returns its values or panics (a nil \<open>*big.Int\<close> handed to
  \<open>Sub\<close>, a nil map entry, a zero divisor).
\<close>

datatype 'a outcome = Returns 'a | Panics

subsection \<open>The operations of \<open>math/big\<close> the code uses\<close>

text \<open>\<open>x.Cmp(y)\<close> is -1, 0 or 1.\<close>

definition big_Cmp :: "int \<Rightarrow> int \<Rightarrow> int" where
  "big_Cmp x y = (if x < y then - 1 else if x = y then 0 else 1)"

text \<open>
  \<open>z.Div(x, y)\<close> is Euclidean division: the remainder is never negative. It panics on
  a zero divisor (\<open>None\<close>).
\<close>

definition big_Div :: "int \<Rightarrow> int \<Rightarrow> int option" where
  "big_Div x y =
     (if y = 0 then None
      else if 0 < y then Some (x div y)
      else Some (- (x div (- y))))"

text \<open>
  \<open>x.Int64()\<close> keeps the low 64 bits of the magnitude and negates them for a
  negative \<open>x\<close>; Go documents the result only for values an int64 can hold.
\<close>

definition big_Int64 :: "int \<Rightarrow> 64 word" where
  "big_Int64 x = (let v = (word_of_int \<bar>x\<bar> :: 64 word) in if x < 0 then - v else v)"

text \<open>Division that truncates towards zero, the rule the specification names.\<close>

definition quot_trunc :: "int \<Rightarrow> int \<Rightarrow> int" where
  "quot_trunc a b = (if (a < 0) = (b < 0) then \<bar>a\<bar> div \<bar>b\<bar> else - (\<bar>a\<bar> div \<bar>b\<bar>))"

subsection \<open>Tickets, sender information, transactions\<close>

text \<open>
  Of a ticket the monitor reads the sender and the face value; the fields of the
  winner selection are opaque to it.
\<close>

record Ticket =
  Sender :: address
  FaceValue :: int
  WinnerFields :: nat

record SignedTicket =
  Ticket :: Ticket
  Sig :: "8 word list"
  RecipientRand :: int

record ReserveInfo =
  FundsRemaining :: int
  ClaimedInCurrentRound :: int

record SenderInfo =
  Reserve :: ReserveInfo
  WithdrawRound :: int

text \<open>The fields of a dynamic-fee transaction, as \<open>newStubDynamicFeeTx\<close> fills them.\<close>

record Transaction =
  Nonce :: "64 word"
  GasFeeCap :: int
  GasTipCap :: int
  Gas :: "64 word"
  Value :: int
  Data :: "8 word list"
  To :: "address option"

subsection \<open>The collaborators\<close>

text \<open>
  What the Broker, the SenderManager, the TimeManager, the TicketStore, the clock and
  the metrics switch answer during one call of the monitor. \<open>ClaimedReserve\<close> returns
  a pointer (possibly nil) and an error, as its Go signature does.
\<close>

record world =
  GetSenderInfo :: "address \<Rightarrow> error + SenderInfo"
  ClaimedReserve :: "address \<Rightarrow> address \<Rightarrow> int option \<times> error option"
  GetTranscoderPoolSize :: int
  LastInitializedRound :: int
  RedeemWinningTicket :: "Ticket \<Rightarrow> 8 word list \<Rightarrow> int \<Rightarrow> error + Transaction"
  CheckTx :: "Transaction \<Rightarrow> error option"
  StoreAdd :: "SignedTicket \<Rightarrow> error option"
  unixNow :: int
  monitorEnabled :: bool

section \<open>The sender monitor\<close>

text \<open>
  \<open>remoteSender\<close> and \<open>senderMonitor\<close> as the structs declare them. The queue of a
  sender is a handle on the ticket store for that sender's address; the channels and
  the mutex belong to the scheduling and are not part of the sequential model.
\<close>

record remoteSender =
  pendingAmount :: int
  queue :: address
  lastAccess :: int

record senderMonitor =
  claimant :: address
  cleanupInterval :: int
  ttl :: int
  senders :: "address \<rightharpoonup> remoteSender"
  ticketStore :: "address \<Rightarrow> SignedTicket list"

definition NewSenderMonitor ::
  "address \<Rightarrow> (address \<Rightarrow> SignedTicket list) \<Rightarrow> int \<Rightarrow> int \<Rightarrow> senderMonitor" where
  "NewSenderMonitor cl store interval t =
     \<lparr>claimant = cl, cleanupInterval = interval, ttl = t,
      senders = Map.empty, ticketStore = store\<rparr>"

text \<open>\<open>cache\<close> stores a new entry with nothing pending.\<close>

definition cache :: "world \<Rightarrow> senderMonitor \<Rightarrow> address \<Rightarrow> senderMonitor" where
  "cache w sm addr =
     sm\<lparr>senders := (senders sm)(addr \<mapsto>
          \<lparr>pendingAmount = 0, queue = addr, lastAccess = unixNow w\<rparr>)\<rparr>"

text \<open>
  \<open>ensureCache\<close> caches the sender when it is absent and stamps the entry with the
  current time.
\<close>

definition ensureCache :: "world \<Rightarrow> senderMonitor \<Rightarrow> address \<Rightarrow> senderMonitor" where
  "ensureCache w sm addr =
     (let sm1 = (if senders sm addr = None then cache w sm addr else sm)
      in sm1\<lparr>senders := (senders sm1)(addr :=
            map_option (\<lambda>rs. rs\<lparr>lastAccess := unixNow w\<rparr>) (senders sm1 addr))\<rparr>)"

text \<open>
  The amount pending for an address: the field of its entry, and nothing for a sender
  that is not cached (\<open>cache\<close> starts every entry at 0).
\<close>

definition pendingOf :: "senderMonitor \<Rightarrow> address \<Rightarrow> int" where
  "pendingOf sm addr = (case senders sm addr of None \<Rightarrow> 0 | Some rs \<Rightarrow> pendingAmount rs)"

text \<open>
  The queue of a sender: the handle in its entry, and for a sender that is not cached
  the queue \<open>cache\<close> opens for it, the one of its own address.
\<close>

definition queueOf :: "senderMonitor \<Rightarrow> address \<Rightarrow> address" where
  "queueOf sm addr = (case senders sm addr of None \<Rightarrow> addr | Some rs \<Rightarrow> queue rs)"

definition AddFloat ::
  "world \<Rightarrow> senderMonitor \<Rightarrow> address \<Rightarrow> int \<Rightarrow> error option outcome \<times> senderMonitor" where
  "AddFloat w sm addr amount =
     (let sm1 = ensureCache w sm addr
      in case senders sm1 addr of
           None \<Rightarrow> (Panics, sm1)
         | Some rs \<Rightarrow>
             if big_Cmp (pendingAmount rs) amount < 0
             then (Returns (Some InsufficientPendingAmount), sm1)
             else (Returns None,
                   sm1\<lparr>senders := (senders sm1)(addr \<mapsto>
                          rs\<lparr>pendingAmount := pendingAmount rs - amount\<rparr>)\<rparr>))"

definition SubFloat ::
  "world \<Rightarrow> senderMonitor \<Rightarrow> address \<Rightarrow> int \<Rightarrow> unit outcome \<times> senderMonitor" where
  "SubFloat w sm addr amount =
     (let sm1 = ensureCache w sm addr
      in case senders sm1 addr of
           None \<Rightarrow> (Panics, sm1)
         | Some rs \<Rightarrow>
             (Returns (),
              sm1\<lparr>senders := (senders sm1)(addr \<mapsto>
                     rs\<lparr>pendingAmount := pendingAmount rs + amount\<rparr>)\<rparr>))"

definition reserveAlloc ::
  "world \<Rightarrow> senderMonitor \<Rightarrow> address \<Rightarrow> (error + int) outcome" where
  "reserveAlloc w sm addr =
     (case GetSenderInfo w addr of
        Inl err \<Rightarrow> Returns (Inl err)
      | Inr info \<Rightarrow>
          (let (claimed, err) = ClaimedReserve w addr (claimant sm);
               poolSize = GetTranscoderPoolSize w
           in if big_Cmp poolSize 0 = 0 then Returns (Inr 0)
              else (let reserve = FundsRemaining (Reserve info)
                                  + ClaimedInCurrentRound (Reserve info)
                    in case big_Div reserve poolSize of
                         None \<Rightarrow> Panics
                       | Some q \<Rightarrow>
                           (case claimed of
                              None \<Rightarrow> Panics
                            | Some c \<Rightarrow> Returns (Inr (q - c))))))"

definition maxFloat ::
  "world \<Rightarrow> senderMonitor \<Rightarrow> address \<Rightarrow> (error + int) outcome" where
  "maxFloat w sm addr =
     (case reserveAlloc w sm addr of
        Panics \<Rightarrow> Panics
      | Returns (Inl err) \<Rightarrow> Returns (Inl err)
      | Returns (Inr ra) \<Rightarrow>
          (case senders sm addr of
             None \<Rightarrow> Panics
           | Some rs \<Rightarrow> Returns (Inr (ra - pendingAmount rs))))"

definition MaxFloat ::
  "world \<Rightarrow> senderMonitor \<Rightarrow> address \<Rightarrow> (error + int) outcome \<times> senderMonitor" where
  "MaxFloat w sm addr =
     (let sm1 = ensureCache w sm addr in (maxFloat w sm1 addr, sm1))"

text \<open>
  Modelled from the spec: \<open>ticketQueue.Add\<close> is not among the sources. It appends the
  ticket to the persistent store of the queue's sender and fails only when the store
  fails, in which case nothing is stored.
\<close>

definition queue_Add ::
  "world \<Rightarrow> senderMonitor \<Rightarrow> address \<Rightarrow> SignedTicket \<Rightarrow> error option \<times> senderMonitor" where
  "queue_Add w sm q ticket =
     (case StoreAdd w ticket of
        Some err \<Rightarrow> (Some err, sm)
      | None \<Rightarrow>
          (None, sm\<lparr>ticketStore := (ticketStore sm)(q := ticketStore sm q @ [ticket])\<rparr>))"

definition QueueTicket ::
  "world \<Rightarrow> senderMonitor \<Rightarrow> SignedTicket \<Rightarrow> error option outcome \<times> senderMonitor" where
  "QueueTicket w sm ticket =
     (let sm1 = ensureCache w sm (Sender (Ticket ticket))
      in case senders sm1 (Sender (Ticket ticket)) of
           None \<Rightarrow> (Panics, sm1)
         | Some rs \<Rightarrow>
             (let (err, sm2) = queue_Add w sm1 (queue rs) ticket in (Returns err, sm2)))"

definition ValidateSender :: "world \<Rightarrow> senderMonitor \<Rightarrow> address \<Rightarrow> error option" where
  "ValidateSender w sm addr =
     (case GetSenderInfo w addr of
        Inl err \<Rightarrow> Some (CouldNotGetSenderInfo addr err)
      | Inr info \<Rightarrow>
          (let maxWithdrawRound = LastInitializedRound w + 1
           in if big_Int64 (WithdrawRound info) \<noteq> 0
                 \<and> big_Cmp (WithdrawRound info) maxWithdrawRound \<noteq> 1
              then Some (UnlockSoon addr)
              else None))"


subsection \<open>One redemption attempt\<close>

text \<open>
  What an attempt does to the outside, in order: the monitor operations it invokes, the
  Broker calls and the metrics it emits.
\<close>

datatype event =
    CallMaxFloat address
  | CallQueueTicket SignedTicket
  | CallSubFloat address int
  | CallAddFloat address int
  | CallRedeemWinningTicket Ticket
  | CallCheckTx Transaction
  | TicketRedemptionError address
  | ValueRedeemed address int

text \<open>
  The part of \<open>redeemWinningTicket\<close> between the \<open>defer\<close> statement and the end of the
  function: submit the redemption, wait for it to confirm.
\<close>

definition submitAndCheck :: "world \<Rightarrow> SignedTicket \<Rightarrow> error option \<times> event list" where
  "submitAndCheck w ticket =
     (case RedeemWinningTicket w (Ticket ticket) (Sig ticket) (RecipientRand ticket) of
        Inl e \<Rightarrow>
          (Some e,
           CallRedeemWinningTicket (Ticket ticket)
           # (if monitorEnabled w then [TicketRedemptionError (Sender (Ticket ticket))] else []))
      | Inr tx \<Rightarrow>
          (case CheckTx w tx of
             Some e \<Rightarrow>
               (Some e,
                [CallRedeemWinningTicket (Ticket ticket), CallCheckTx tx]
                @ (if monitorEnabled w then [TicketRedemptionError (Sender (Ticket ticket))]
                   else []))
           | None \<Rightarrow>
               (None,
                [CallRedeemWinningTicket (Ticket ticket), CallCheckTx tx]
                @ (if monitorEnabled w
                   then [ValueRedeemed (Sender (Ticket ticket)) (FaceValue (Ticket ticket))]
                   else []))))"

definition redeemWinningTicket ::
  "world \<Rightarrow> senderMonitor \<Rightarrow> SignedTicket
     \<Rightarrow> error option outcome \<times> senderMonitor \<times> event list" where
  "redeemWinningTicket w sm ticket =
     (let sender = Sender (Ticket ticket); faceValue = FaceValue (Ticket ticket)
      in case MaxFloat w sm sender of
           (Panics, sm1) \<Rightarrow> (Panics, sm1, [CallMaxFloat sender])
         | (Returns (Inl e), sm1) \<Rightarrow> (Returns (Some e), sm1, [CallMaxFloat sender])
         | (Returns (Inr mf), sm1) \<Rightarrow>
             if big_Cmp mf 0 \<le> 0 then
               (case QueueTicket w sm1 ticket of
                  (Panics, sm2) \<Rightarrow>
                    (Panics, sm2, [CallMaxFloat sender, CallQueueTicket ticket])
                | (Returns _, sm2) \<Rightarrow>
                    (Returns (Some MaxFloatIsZero), sm2,
                     [CallMaxFloat sender, CallQueueTicket ticket]))
             else if big_Cmp mf faceValue < 0 then
               (case QueueTicket w sm1 ticket of
                  (Panics, sm2) \<Rightarrow>
                    (Panics, sm2, [CallMaxFloat sender, CallQueueTicket ticket])
                | (Returns _, sm2) \<Rightarrow>
                    (Returns (Some (InsufficientMaxFloat sender faceValue mf)), sm2,
                     [CallMaxFloat sender, CallQueueTicket ticket]))
             else
               (case SubFloat w sm1 sender faceValue of
                  (Panics, sm2) \<Rightarrow>
                    (Panics, sm2, [CallMaxFloat sender, CallSubFloat sender faceValue])
                | (Returns _, sm2) \<Rightarrow>
                    (let (err, evs) = submitAndCheck w ticket;
                         trace = [CallMaxFloat sender, CallSubFloat sender faceValue] @ evs
                                 @ [CallAddFloat sender faceValue]
                     in case AddFloat w sm2 sender faceValue of
                          (Panics, sm3) \<Rightarrow> (Panics, sm3, trace)
                        | (Returns (Some e), sm3) \<Rightarrow> (Returns (Some e), sm3, trace)
                        | (Returns None, sm3) \<Rightarrow> (Returns err, sm3, trace))))"

subsection \<open>Sequences of calls on the monitor\<close>

datatype call =
    AddFloatCall address int
  | SubFloatCall address int
  | QueueTicketCall SignedTicket

fun amount :: "call \<Rightarrow> int" where
  "amount (AddFloatCall addr n) = n"
| "amount (SubFloatCall addr n) = n"
| "amount (QueueTicketCall ticket) = FaceValue (Ticket ticket)"

fun step :: "world \<Rightarrow> senderMonitor \<Rightarrow> call \<Rightarrow> senderMonitor" where
  "step w sm (AddFloatCall addr n) = snd (AddFloat w sm addr n)"
| "step w sm (SubFloatCall addr n) = snd (SubFloat w sm addr n)"
| "step w sm (QueueTicketCall ticket) = snd (QueueTicket w sm ticket)"

text \<open>The states of the monitor after each call of a sequence, in order.\<close>

fun states :: "senderMonitor \<Rightarrow> (world \<times> call) list \<Rightarrow> senderMonitor list" where
  "states sm [] = []"
| "states sm ((w, c) # cs) = step w sm c # states (step w sm c) cs"

text \<open>The calls of an attempt, read off its trace.\<close>

fun requeued :: "event list \<Rightarrow> SignedTicket list" where
  "requeued [] = []"
| "requeued (CallQueueTicket t # es) = t # requeued es"
| "requeued (e # es) = requeued es"

fun addFloatCalls :: "event list \<Rightarrow> (address \<times> int) list" where
  "addFloatCalls [] = []"
| "addFloatCalls (CallAddFloat a n # es) = (a, n) # addFloatCalls es"
| "addFloatCalls (e # es) = addFloatCalls es"

fun subFloatCalls :: "event list \<Rightarrow> (address \<times> int) list" where
  "subFloatCalls [] = []"
| "subFloatCalls (CallSubFloat a n # es) = (a, n) # subFloatCalls es"
| "subFloatCalls (e # es) = subFloatCalls es"

section \<open>The statements of the specification\<close>

text \<open>
  The reserve allocation in the specification's words: the reserve divided by the pool
  size, truncating, minus what this recipient has claimed; 0 for an empty pool.
\<close>

definition spec_reserveAlloc :: "SenderInfo \<Rightarrow> int \<Rightarrow> int \<Rightarrow> int" where
  "spec_reserveAlloc info poolSize claimed =
     (if poolSize = 0 then 0
      else quot_trunc (FundsRemaining (Reserve info) + ClaimedInCurrentRound (Reserve info))
             poolSize - claimed)"

text \<open>The invariant of the data model: no cached sender has a negative pending amount.\<close>

definition pending_nonneg :: "senderMonitor \<Rightarrow> bool" where
  "pending_nonneg sm = (\<forall>a rs. senders sm a = Some rs \<longrightarrow> 0 \<le> pendingAmount rs)"

text \<open>
  The float checks of steps 2 and 3 on the max float that step 1 computed, and the
  failure of the Broker in steps 5 and 6.
\<close>

definition floatCheckFails :: "world \<Rightarrow> senderMonitor \<Rightarrow> SignedTicket \<Rightarrow> bool" where
  "floatCheckFails w sm t =
     (case fst (MaxFloat w sm (Sender (Ticket t))) of
        Returns (Inr mf) \<Rightarrow> mf \<le> 0 \<or> mf < FaceValue (Ticket t)
      | _ \<Rightarrow> False)"

definition floatCheckPasses :: "world \<Rightarrow> senderMonitor \<Rightarrow> SignedTicket \<Rightarrow> bool" where
  "floatCheckPasses w sm t =
     (case fst (MaxFloat w sm (Sender (Ticket t))) of
        Returns (Inr mf) \<Rightarrow> 0 < mf \<and> FaceValue (Ticket t) \<le> mf
      | _ \<Rightarrow> False)"

definition brokerFails :: "world \<Rightarrow> SignedTicket \<Rightarrow> bool" where
  "brokerFails w t =
     (case RedeemWinningTicket w (Ticket t) (Sig t) (RecipientRand t) of
        Inl e \<Rightarrow> True
      | Inr tx \<Rightarrow> CheckTx w tx \<noteq> None)"

section \<open>The transaction manager\<close>

record GasPriceMonitor =
  minGasPrice :: "int option"
  maxGasPrice :: "int option"
  gasPrice :: "int option"

record TransactionManager =
  gpm :: GasPriceMonitor
  maxReplacements :: nat

text \<open>
  Modelled from the spec: the body of \<open>applyPriceBump\<close> is not among the sources, only
  its test is. The new cap is the old cap times \<open>100 + priceBump\<close>, divided by 100,
  truncating toward zero.
\<close>

definition applyPriceBump :: "int \<Rightarrow> nat \<Rightarrow> int" where
  "applyPriceBump val priceBump = quot_trunc (val * (100 + int priceBump)) 100"

text \<open>
  Modelled from the spec: the body of \<open>newAdjustedTx\<close> is not among the sources, only
  its test is. Without a maximum gas price the transaction is returned unchanged; with
  one, the result is a copy whose fee cap is the maximum gas price, every other field
  unchanged. For a fee cap above the maximum these are the specification's words. For a
  fee cap at or below the maximum the specification says "unchanged", which
  \<open>TestNewAdjustedTx\<close> contradicts (fee cap 1000, maximum 1100, expected fee cap 1100
  and a different hash); there the definition follows the test.
\<close>

definition newAdjustedTx :: "TransactionManager \<Rightarrow> Transaction \<Rightarrow> Transaction" where
  "newAdjustedTx tm tx =
     (case maxGasPrice (gpm tm) of
        None \<Rightarrow> tx
      | Some m \<Rightarrow> tx\<lparr>GasFeeCap := m\<rparr>)"

text \<open>
  Modelled from the spec: \<open>newAdjustedTx\<close> in the specification's words alone, the fee
  cap lowered only when it exceeds the maximum gas price.
\<close>

definition spec_newAdjustedTx :: "TransactionManager \<Rightarrow> Transaction \<Rightarrow> Transaction" where
  "spec_newAdjustedTx tm tx =
     (case maxGasPrice (gpm tm) of
        None \<Rightarrow> tx
      | Some m \<Rightarrow> if m < GasFeeCap tx then tx\<lparr>GasFeeCap := m\<rparr> else tx)"

text \<open>
  The hash of a transaction covers all its fields; it is modelled as the fields
  themselves, so that two hashes agree exactly when the transactions do.
\<close>

type_synonym hash =
  "64 word \<times> int \<times> int \<times> 64 word \<times> int \<times> 8 word list \<times> address option"

definition Hash :: "Transaction \<Rightarrow> hash" where
  "Hash tx = (Nonce tx, GasFeeCap tx, GasTipCap tx, Gas tx, Value tx, Data tx, To tx)"

text \<open>
  The helpers and the two tests of the sources, as predicates on the implementation
  under test. The random recipient and payload of the stub are parameters.
\<close>

definition newStubDynamicFeeTx ::
  "address \<Rightarrow> 8 word list \<Rightarrow> int \<Rightarrow> int \<Rightarrow> Transaction" where
  "newStubDynamicFeeTx addr bytes feeCap tipCap =
     \<lparr>Nonce = 1, GasFeeCap = feeCap, GasTipCap = tipCap, Gas = 1000000, Value = 100,
      Data = bytes, To = Some addr\<rparr>"

definition assertTxFieldsUnchanged :: "Transaction \<Rightarrow> Transaction \<Rightarrow> bool" where
  "assertTxFieldsUnchanged tx1 tx2 =
     (Nonce tx1 = Nonce tx2 \<and> Gas tx1 = Gas tx2 \<and> Value tx1 = Value tx1 \<and> To tx1 = To tx2)"

definition TestNewAdjustedTx ::
  "(TransactionManager \<Rightarrow> Transaction \<Rightarrow> Transaction) \<Rightarrow> address \<Rightarrow> 8 word list \<Rightarrow> bool"
  where
  "TestNewAdjustedTx impl addr bytes =
     (let gasTipCap = 100; gasFeeCap = 1000;
          tm = \<lparr>gpm = \<lparr>minGasPrice = None, maxGasPrice = None, gasPrice = None\<rparr>,
                maxReplacements = 0\<rparr>;
          tx1 = newStubDynamicFeeTx addr bytes gasFeeCap gasTipCap;
          tx2 = impl tm tx1;
          noMax = (GasFeeCap tx1 = GasFeeCap tx2 \<and> GasTipCap tx1 = GasTipCap tx2
                   \<and> Hash tx1 = Hash tx2 \<and> assertTxFieldsUnchanged tx1 tx2);
          maxGasFee = 1100;
          tm' = tm\<lparr>gpm := (gpm tm)\<lparr>maxGasPrice := Some maxGasFee\<rparr>\<rparr>;
          tx2' = impl tm' tx1;
          withMax = (maxGasFee = GasFeeCap tx2' \<and> GasTipCap tx1 = GasTipCap tx2'
                     \<and> Hash tx1 \<noteq> Hash tx2' \<and> assertTxFieldsUnchanged tx1 tx2')
      in noMax \<and> withMax)"

definition TestApplyPriceBump :: "(int \<Rightarrow> nat \<Rightarrow> int) \<Rightarrow> bool" where
  "TestApplyPriceBump impl =
     (impl 500 0 = 500 \<and> impl 500 11 = 555 \<and> impl 500 17 = 585 \<and> impl 500 101 = 1005
      \<and> impl 50 11 = 55)"

section \<open>Concrete collaborators, monitors and tickets\<close>

definition info0 :: SenderInfo where
  "info0 = \<lparr>Reserve = \<lparr>FundsRemaining = 1005, ClaimedInCurrentRound = 10\<rparr>,
            WithdrawRound = 0\<rparr>"

definition tx0 :: Transaction where
  "tx0 = newStubDynamicFeeTx 9 [] 1000 100"

definition w0 :: world where
  "w0 = \<lparr>GetSenderInfo = (\<lambda>a. Inr info0),
         ClaimedReserve = (\<lambda>a c. (Some 1, None)),
         GetTranscoderPoolSize = 10,
         LastInitializedRound = 5,
         RedeemWinningTicket = (\<lambda>t s r. Inr tx0),
         CheckTx = (\<lambda>tx. None),
         StoreAdd = (\<lambda>t. None),
         unixNow = 100,
         monitorEnabled = True\<rparr>"

definition redeemFails :: "Ticket \<Rightarrow> 8 word list \<Rightarrow> int \<Rightarrow> error + Transaction" where
  "redeemFails t s r = Inl (CollaboratorError ''RedeemWinningTicket error'')"

definition checkTxFails :: "Transaction \<Rightarrow> error option" where
  "checkTxFails tx = Some (CollaboratorError ''CheckTx error'')"

definition storeFails :: "SignedTicket \<Rightarrow> error option" where
  "storeFails t = Some (CollaboratorError ''TicketStore error'')"

definition claimedReserveFails :: "int option \<Rightarrow> address \<Rightarrow> address \<Rightarrow> int option \<times> error option"
  where
  "claimedReserveFails p a c = (p, Some (CollaboratorError ''ClaimedReserve error''))"

definition withdrawAt :: "int \<Rightarrow> address \<Rightarrow> error + SenderInfo" where
  "withdrawAt r a = Inr (info0\<lparr>WithdrawRound := r\<rparr>)"

definition sm0 :: senderMonitor where
  "sm0 = NewSenderMonitor 2 (\<lambda>a. []) 60 600"

definition t0 :: SignedTicket where
  "t0 = \<lparr>Ticket = \<lparr>Sender = 7, FaceValue = 30, WinnerFields = 0\<rparr>,
         Sig = [], RecipientRand = 0\<rparr>"

definition t1 :: SignedTicket where
  "t1 = \<lparr>Ticket = \<lparr>Sender = 7, FaceValue = 300, WinnerFields = 0\<rparr>,
         Sig = [], RecipientRand = 0\<rparr>"

definition tm0 :: TransactionManager where
  "tm0 = \<lparr>gpm = \<lparr>minGasPrice = None, maxGasPrice = None, gasPrice = None\<rparr>,
          maxReplacements = 0\<rparr>"

definition tm1 :: TransactionManager where
  "tm1 = \<lparr>gpm = \<lparr>minGasPrice = None, maxGasPrice = Some 1100, gasPrice = None\<rparr>,
          maxReplacements = 0\<rparr>"

section \<open>Facts about the operations\<close>

subsection \<open>Arithmetic\<close>

lemma big_Div_nonneg: "0 \<le> x \<Longrightarrow> y \<noteq> 0 \<Longrightarrow> big_Div x y = Some (quot_trunc x y)"
  by (auto simp: big_Div_def quot_trunc_def)

lemma big_Int64_eq_0_iff: "big_Int64 x = 0 \<longleftrightarrow> 2 ^ 64 dvd x"
  by (simp add: big_Int64_def Let_def word_of_int_eq_0_iff)

lemma dvd_small_iff:
  fixes x :: int
  assumes "\<bar>x\<bar> < 2 ^ 64"
  shows "2 ^ 64 dvd x \<longleftrightarrow> x = 0"
proof
  assume d: "2 ^ 64 dvd x"
  show "x = 0"
  proof (rule ccontr)
    assume "x \<noteq> 0"
    then have "\<bar>2 ^ 64 :: int\<bar> \<le> \<bar>x\<bar>" using d by (rule dvd_imp_le_int)
    with assms show False by simp
  qed
qed simp

lemma applyPriceBump_div: "0 \<le> x \<Longrightarrow> applyPriceBump x p = (x * (100 + int p)) div 100"
  by (simp add: applyPriceBump_def quot_trunc_def)

subsection \<open>The cache\<close>

lemma ensureCache_senders_at:
  "senders (ensureCache w sm a) a =
     Some (case senders sm a of
             None \<Rightarrow> \<lparr>pendingAmount = 0, queue = a, lastAccess = unixNow w\<rparr>
           | Some rs \<Rightarrow> rs\<lparr>lastAccess := unixNow w\<rparr>)"
  by (simp add: ensureCache_def cache_def Let_def split: option.splits)

lemma ensureCache_senders_other:
  "b \<noteq> a \<Longrightarrow> senders (ensureCache w sm a) b = senders sm b"
  by (simp add: ensureCache_def cache_def Let_def)

lemma ensureCache_ticketStore: "ticketStore (ensureCache w sm a) = ticketStore sm"
  by (simp add: ensureCache_def cache_def Let_def)

lemma ensureCache_claimant: "claimant (ensureCache w sm a) = claimant sm"
  by (simp add: ensureCache_def cache_def Let_def)

lemma pendingOf_ensureCache: "pendingOf (ensureCache w sm a) b = pendingOf sm b"
  by (cases "b = a")
     (simp_all add: pendingOf_def ensureCache_senders_at ensureCache_senders_other
        split: option.splits)

lemma ensureCache_cached:
  "\<exists>rs. senders (ensureCache w sm a) a = Some rs \<and> pendingAmount rs = pendingOf sm a"
  by (simp add: ensureCache_senders_at pendingOf_def split: option.splits)

lemma pending_nonneg_pendingOf: "pending_nonneg sm \<longleftrightarrow> (\<forall>a. 0 \<le> pendingOf sm a)"
proof
  assume p: "pending_nonneg sm"
  show "\<forall>a. 0 \<le> pendingOf sm a"
  proof
    fix a
    show "0 \<le> pendingOf sm a"
      using p by (cases "senders sm a") (auto simp: pending_nonneg_def pendingOf_def)
  qed
next
  assume q: "\<forall>a. 0 \<le> pendingOf sm a"
  show "pending_nonneg sm"
    unfolding pending_nonneg_def
  proof (intro allI impI)
    fix a rs
    assume "senders sm a = Some rs"
    with q [rule_format, of a] show "0 \<le> pendingAmount rs" by (simp add: pendingOf_def)
  qed
qed

subsection \<open>The float operations never panic, and what they do to the pending amounts\<close>

lemma AddFloat_result:
  "fst (AddFloat w sm a n) =
     Returns (if pendingOf sm a < n then Some InsufficientPendingAmount else None)"
  using ensureCache_cached [of w sm a]
  by (auto simp: AddFloat_def Let_def big_Cmp_def)

lemma AddFloat_error_state:
  "pendingOf sm a < n \<Longrightarrow> snd (AddFloat w sm a n) = ensureCache w sm a"
  using ensureCache_cached [of w sm a]
  by (auto simp: AddFloat_def Let_def big_Cmp_def)

lemma AddFloat_pendingOf:
  "pendingOf (snd (AddFloat w sm a n)) b =
     (if b = a \<and> \<not> pendingOf sm a < n then pendingOf sm a - n else pendingOf sm b)"
  using ensureCache_cached [of w sm a] pendingOf_ensureCache [of w sm a b]
  by (auto simp: AddFloat_def Let_def big_Cmp_def pendingOf_def)

lemma AddFloat_ticketStore: "ticketStore (snd (AddFloat w sm a n)) = ticketStore sm"
  by (simp add: AddFloat_def Let_def ensureCache_ticketStore split: option.splits)

lemma SubFloat_result: "fst (SubFloat w sm a n) = Returns ()"
  using ensureCache_cached [of w sm a]
  by (auto simp: SubFloat_def Let_def)

lemma SubFloat_pendingOf:
  "pendingOf (snd (SubFloat w sm a n)) b =
     (if b = a then pendingOf sm a + n else pendingOf sm b)"
  using ensureCache_cached [of w sm a] pendingOf_ensureCache [of w sm a b]
  by (auto simp: SubFloat_def Let_def pendingOf_def)

lemma SubFloat_ticketStore: "ticketStore (snd (SubFloat w sm a n)) = ticketStore sm"
  by (simp add: SubFloat_def Let_def ensureCache_ticketStore split: option.splits)

lemma QueueTicket_result: "fst (QueueTicket w sm t) = Returns (StoreAdd w t)"
  using ensureCache_cached [of w sm "Sender (Ticket t)"]
  by (auto simp: QueueTicket_def Let_def queue_Add_def split: option.splits)

lemma QueueTicket_senders:
  "senders (snd (QueueTicket w sm t)) = senders (ensureCache w sm (Sender (Ticket t)))"
  using ensureCache_cached [of w sm "Sender (Ticket t)"]
  by (auto simp: QueueTicket_def Let_def queue_Add_def split: option.splits)

lemma QueueTicket_pendingOf: "pendingOf (snd (QueueTicket w sm t)) b = pendingOf sm b"
  using pendingOf_ensureCache [of w sm "Sender (Ticket t)" b]
  by (simp add: pendingOf_def QueueTicket_senders)

lemma QueueTicket_ticketStore_failure:
  "StoreAdd w t \<noteq> None \<Longrightarrow> ticketStore (snd (QueueTicket w sm t)) = ticketStore sm"
  by (auto simp: QueueTicket_def Let_def queue_Add_def ensureCache_ticketStore
      split: option.splits)

lemma queueOf_ensureCache: "queueOf (ensureCache w sm a) b = queueOf sm b"
  by (cases "b = a")
     (simp_all add: queueOf_def ensureCache_senders_at ensureCache_senders_other
        split: option.splits)

lemma QueueTicket_ticketStore_success:
  "StoreAdd w t = None \<Longrightarrow>
   ticketStore (snd (QueueTicket w sm t)) =
     (ticketStore sm)(queueOf sm (Sender (Ticket t)) :=
        ticketStore sm (queueOf sm (Sender (Ticket t))) @ [t])"
  using ensureCache_senders_at [of w sm "Sender (Ticket t)"]
  by (auto simp: QueueTicket_def Let_def queue_Add_def ensureCache_ticketStore queueOf_def
      split: option.splits)

lemma NewSenderMonitor_queueOf: "queueOf (NewSenderMonitor cl store i t) a = a"
  by (simp add: queueOf_def NewSenderMonitor_def)

subsection \<open>The max float\<close>

lemma reserveAlloc_spec:
  assumes "GetSenderInfo w addr = Inr info"
    and "0 \<le> FundsRemaining (Reserve info) + ClaimedInCurrentRound (Reserve info)"
    and "GetTranscoderPoolSize w \<noteq> 0
           \<longrightarrow> fst (ClaimedReserve w addr (claimant sm)) = Some claimed"
  shows "reserveAlloc w sm addr =
           Returns (Inr (spec_reserveAlloc info (GetTranscoderPoolSize w) claimed))"
  using assms
  by (auto simp: reserveAlloc_def spec_reserveAlloc_def big_Cmp_def Let_def big_Div_nonneg
      split: prod.splits)

lemma MaxFloat_state: "snd (MaxFloat w sm a) = ensureCache w sm a"
  by (simp add: MaxFloat_def Let_def)

lemma MaxFloat_GetSenderInfo_error:
  "GetSenderInfo w addr = Inl e \<Longrightarrow> fst (MaxFloat w sm addr) = Returns (Inl e)"
  by (simp add: MaxFloat_def maxFloat_def reserveAlloc_def Let_def)

lemma ensureCache_StoreAdd: "ensureCache (w\<lparr>StoreAdd := f\<rparr>) sm a = ensureCache w sm a"
  by (simp add: ensureCache_def cache_def)

lemma reserveAlloc_StoreAdd: "reserveAlloc (w\<lparr>StoreAdd := f\<rparr>) sm a = reserveAlloc w sm a"
  by (simp add: reserveAlloc_def Let_def split: sum.splits)

lemma MaxFloat_StoreAdd: "MaxFloat (w\<lparr>StoreAdd := f\<rparr>) sm a = MaxFloat w sm a"
  by (simp add: MaxFloat_def maxFloat_def reserveAlloc_StoreAdd ensureCache_StoreAdd)

subsection \<open>The sender check\<close>

lemma ValidateSender_exact:
  "GetSenderInfo w addr = Inr info \<Longrightarrow>
   ValidateSender w sm addr =
     (if \<not> 2 ^ 64 dvd WithdrawRound info \<and> WithdrawRound info \<le> LastInitializedRound w + 1
      then Some (UnlockSoon addr) else None)"
  by (auto simp: ValidateSender_def Let_def big_Cmp_def big_Int64_eq_0_iff)

lemma ValidateSender_GetSenderInfo_error:
  "GetSenderInfo w addr = Inl e
     \<Longrightarrow> ValidateSender w sm addr = Some (CouldNotGetSenderInfo addr e)"
  by (simp add: ValidateSender_def)

subsection \<open>The branches of one redemption attempt\<close>

lemma requeued_append: "requeued (xs @ ys) = requeued xs @ requeued ys"
  by (induction xs rule: requeued.induct) simp_all

lemma addFloatCalls_append: "addFloatCalls (xs @ ys) = addFloatCalls xs @ addFloatCalls ys"
  by (induction xs rule: addFloatCalls.induct) simp_all

lemma subFloatCalls_append: "subFloatCalls (xs @ ys) = subFloatCalls xs @ subFloatCalls ys"
  by (induction xs rule: subFloatCalls.induct) simp_all

lemma submitAndCheck_calls:
  "requeued (snd (submitAndCheck w t)) = []"
  "addFloatCalls (snd (submitAndCheck w t)) = []"
  "subFloatCalls (snd (submitAndCheck w t)) = []"
  by (simp_all add: submitAndCheck_def split: sum.splits option.splits)

lemma submitAndCheck_error: "fst (submitAndCheck w t) \<noteq> None \<longleftrightarrow> brokerFails w t"
  by (auto simp: submitAndCheck_def brokerFails_def split: sum.splits option.splits)

lemma redeem_MaxFloat_error:
  assumes "fst (MaxFloat w sm (Sender (Ticket t))) = Returns (Inl e)"
  shows "redeemWinningTicket w sm t =
           (Returns (Some e), ensureCache w sm (Sender (Ticket t)),
            [CallMaxFloat (Sender (Ticket t))])"
proof -
  have "MaxFloat w sm (Sender (Ticket t)) =
          (Returns (Inl e), ensureCache w sm (Sender (Ticket t)))"
    using assms MaxFloat_state [of w sm "Sender (Ticket t)"] by (simp add: prod_eq_iff)
  then show ?thesis by (simp add: redeemWinningTicket_def Let_def)
qed

lemma redeem_MaxFloat_panic:
  assumes "fst (MaxFloat w sm (Sender (Ticket t))) = Panics"
  shows "redeemWinningTicket w sm t =
           (Panics, ensureCache w sm (Sender (Ticket t)), [CallMaxFloat (Sender (Ticket t))])"
proof -
  have "MaxFloat w sm (Sender (Ticket t)) = (Panics, ensureCache w sm (Sender (Ticket t)))"
    using assms MaxFloat_state [of w sm "Sender (Ticket t)"] by (simp add: prod_eq_iff)
  then show ?thesis by (simp add: redeemWinningTicket_def Let_def)
qed

lemma redeem_float_check_fails:
  assumes "fst (MaxFloat w sm (Sender (Ticket t))) = Returns (Inr mf)"
    and "mf \<le> 0 \<or> mf < FaceValue (Ticket t)"
  shows "redeemWinningTicket w sm t =
           (Returns (Some (if mf \<le> 0 then MaxFloatIsZero
                           else InsufficientMaxFloat (Sender (Ticket t))
                                  (FaceValue (Ticket t)) mf)),
            snd (QueueTicket w (ensureCache w sm (Sender (Ticket t))) t),
            [CallMaxFloat (Sender (Ticket t)), CallQueueTicket t])"
proof -
  let ?s = "Sender (Ticket t)"
  have m: "MaxFloat w sm ?s = (Returns (Inr mf), ensureCache w sm ?s)"
    using assms(1) MaxFloat_state [of w sm ?s] by (simp add: prod_eq_iff)
  obtain sm2 where q: "QueueTicket w (ensureCache w sm ?s) t = (Returns (StoreAdd w t), sm2)"
    using QueueTicket_result [of w "ensureCache w sm ?s" t]
    by (cases "QueueTicket w (ensureCache w sm ?s) t") simp
  show ?thesis
    using assms(2) by (auto simp: redeemWinningTicket_def Let_def m q big_Cmp_def)
qed

lemma redeem_attempt:
  assumes "fst (MaxFloat w sm (Sender (Ticket t))) = Returns (Inr mf)"
    and "0 < mf" and "FaceValue (Ticket t) \<le> mf"
  shows "redeemWinningTicket w sm t =
           (Returns (if pendingOf sm (Sender (Ticket t)) < 0
                     then Some InsufficientPendingAmount
                     else fst (submitAndCheck w t)),
            snd (AddFloat w
                   (snd (SubFloat w (ensureCache w sm (Sender (Ticket t)))
                           (Sender (Ticket t)) (FaceValue (Ticket t))))
                   (Sender (Ticket t)) (FaceValue (Ticket t))),
            [CallMaxFloat (Sender (Ticket t)),
             CallSubFloat (Sender (Ticket t)) (FaceValue (Ticket t))]
            @ snd (submitAndCheck w t)
            @ [CallAddFloat (Sender (Ticket t)) (FaceValue (Ticket t))])"
proof -
  let ?s = "Sender (Ticket t)" and ?fv = "FaceValue (Ticket t)"
  let ?sm1 = "ensureCache w sm ?s"
  have m: "MaxFloat w sm ?s = (Returns (Inr mf), ?sm1)"
    using assms(1) MaxFloat_state [of w sm ?s] by (simp add: prod_eq_iff)
  obtain sm2 where sb: "SubFloat w ?sm1 ?s ?fv = (Returns (), sm2)"
    using SubFloat_result [of w ?sm1 ?s ?fv] by (cases "SubFloat w ?sm1 ?s ?fv") simp
  have "pendingOf sm2 ?s = pendingOf sm ?s + ?fv"
    using SubFloat_pendingOf [of w ?sm1 ?s ?fv ?s] by (simp add: sb pendingOf_ensureCache)
  then have lt: "pendingOf sm2 ?s < ?fv \<longleftrightarrow> pendingOf sm ?s < 0" by simp
  obtain sm3 where ad: "AddFloat w sm2 ?s ?fv =
      (Returns (if pendingOf sm ?s < 0 then Some InsufficientPendingAmount else None), sm3)"
    using AddFloat_result [of w sm2 ?s ?fv] lt by (cases "AddFloat w sm2 ?s ?fv") simp
  obtain err evs where sc: "submitAndCheck w t = (err, evs)"
    by (cases "submitAndCheck w t")
  show ?thesis
    using assms(2,3)
    by (simp add: redeemWinningTicket_def Let_def m sb ad sc big_Cmp_def)
qed

subsection \<open>The invariant along a sequence of calls\<close>

lemma step_pending_nonneg:
  "0 \<le> amount c \<Longrightarrow> pending_nonneg sm \<Longrightarrow> pending_nonneg (step w sm c)"
  by (cases c)
     (auto simp: pending_nonneg_pendingOf AddFloat_pendingOf SubFloat_pendingOf
        QueueTicket_pendingOf)

lemma states_pending_nonneg:
  "\<forall>(w, c) \<in> set cs. 0 \<le> amount c \<Longrightarrow> pending_nonneg sm
     \<Longrightarrow> \<forall>st \<in> set (states sm cs). pending_nonneg st"
proof (induction cs arbitrary: sm)
  case Nil
  then show ?case by simp
next
  case (Cons wc cs)
  obtain w c where wc: "wc = (w, c)" by (cases wc)
  from Cons.prems wc have "pending_nonneg (step w sm c)"
    by (simp add: step_pending_nonneg)
  moreover from Cons.prems have "\<forall>(w, c) \<in> set cs. 0 \<le> amount c" by simp
  ultimately show ?case using Cons.IH wc by simp
qed

lemma NewSenderMonitor_pending_nonneg: "pending_nonneg (NewSenderMonitor cl store i t)"
  by (simp add: pending_nonneg_def NewSenderMonitor_def)

subsection \<open>The tests of the transaction manager\<close>

lemma TestApplyPriceBump_passes: "TestApplyPriceBump applyPriceBump"
  by (simp add: TestApplyPriceBump_def applyPriceBump_def quot_trunc_def)

lemma TestNewAdjustedTx_passes: "TestNewAdjustedTx newAdjustedTx addr bytes"
  by (simp add: TestNewAdjustedTx_def newAdjustedTx_def newStubDynamicFeeTx_def Hash_def
      assertTxFieldsUnchanged_def Let_def)

lemma TestNewAdjustedTx_fails_on_spec_wording:
  "\<not> TestNewAdjustedTx spec_newAdjustedTx addr bytes"
  by (simp add: TestNewAdjustedTx_def spec_newAdjustedTx_def newStubDynamicFeeTx_def Hash_def
      assertTxFieldsUnchanged_def Let_def)

subsection \<open>The concrete values\<close>

lemma MaxFloat_example:
  assumes "GetSenderInfo w 7 = Inr info0" and "ClaimedReserve w 7 2 = (Some 1, None)"
    and "GetTranscoderPoolSize w = 10"
  shows "fst (MaxFloat w sm0 7) = Returns (Inr 100)"
  using assms
  by (simp add: MaxFloat_def maxFloat_def reserveAlloc_def Let_def sm0_def info0_def
      NewSenderMonitor_def ensureCache_def cache_def big_Cmp_def big_Div_def)

lemma pendingOf_sm0: "pendingOf sm0 a = 0"
  by (simp add: pendingOf_def sm0_def NewSenderMonitor_def)

lemma ticket_fields:
  "Sender (Ticket t0) = 7" "FaceValue (Ticket t0) = 30"
  "Sender (Ticket t1) = 7" "FaceValue (Ticket t1) = 300"
  by (simp_all add: t0_def t1_def)

section \<open>The claims\<close>

text \<open>
  C1. For every address, \<open>MaxFloat\<close> returns the reserve allocation minus the pending
  amount of the sender, where the reserve allocation is
  \<open>(FundsRemaining + ClaimedInCurrentRound) / poolSize - claimed\<close> with truncating
  division, and 0 when the transcoder pool is empty. The statement is for sender
  information that was fetched, a claimed amount that was handed over (needed only for a
  non-empty pool) and a reserve that is not negative, where Go's Euclidean \<open>Div\<close> and
  truncation agree.
\<close>

theorem MaxFloat_is_reserveAlloc_minus_pending:
  assumes "GetSenderInfo w addr = Inr info"
    and "0 \<le> FundsRemaining (Reserve info) + ClaimedInCurrentRound (Reserve info)"
    and "GetTranscoderPoolSize w \<noteq> 0
           \<longrightarrow> fst (ClaimedReserve w addr (claimant sm)) = Some claimed"
  shows "fst (MaxFloat w sm addr) =
           Returns (Inr (spec_reserveAlloc info (GetTranscoderPoolSize w) claimed
                         - pendingOf sm addr))
         \<and> pendingOf (snd (MaxFloat w sm addr)) addr = pendingOf sm addr
         \<and> reserveAlloc w (snd (MaxFloat w sm addr)) addr =
             Returns (Inr (spec_reserveAlloc info (GetTranscoderPoolSize w) claimed))
         \<and> (GetTranscoderPoolSize w = 0 \<longrightarrow>
              reserveAlloc w (snd (MaxFloat w sm addr)) addr = Returns (Inr 0))"
proof -
  let ?sm1 = "ensureCache w sm addr"
  have c: "GetTranscoderPoolSize w \<noteq> 0
             \<longrightarrow> fst (ClaimedReserve w addr (claimant ?sm1)) = Some claimed"
    using assms(3) by (simp add: ensureCache_claimant)
  have ra: "reserveAlloc w ?sm1 addr =
              Returns (Inr (spec_reserveAlloc info (GetTranscoderPoolSize w) claimed))"
    by (rule reserveAlloc_spec [OF assms(1) assms(2) c])
  obtain rs where rs: "senders ?sm1 addr = Some rs" "pendingAmount rs = pendingOf sm addr"
    using ensureCache_cached [of w sm addr] by blast
  have "maxFloat w ?sm1 addr =
          Returns (Inr (spec_reserveAlloc info (GetTranscoderPoolSize w) claimed
                        - pendingOf sm addr))"
    by (simp add: maxFloat_def ra rs)
  moreover have "GetTranscoderPoolSize w = 0 \<longrightarrow> reserveAlloc w ?sm1 addr = Returns (Inr 0)"
    by (simp add: ra spec_reserveAlloc_def)
  ultimately show ?thesis
    by (simp add: MaxFloat_def Let_def ra pendingOf_ensureCache)
qed

text \<open>
  C1 at a concrete sender: a reserve of 1005 + 10 over a pool of 10 truncates to 101, of
  which 1 is claimed; with nothing pending the max float is 100. With an empty pool it
  is 0.
\<close>

theorem MaxFloat_is_reserveAlloc_minus_pending_witness:
  "GetSenderInfo w0 7 = Inr info0
   \<and> 0 \<le> FundsRemaining (Reserve info0) + ClaimedInCurrentRound (Reserve info0)
   \<and> fst (ClaimedReserve w0 7 (claimant sm0)) = Some 1
   \<and> spec_reserveAlloc info0 10 1 = 100 \<and> pendingOf sm0 7 = 0
   \<and> fst (MaxFloat w0 sm0 7) = Returns (Inr 100)
   \<and> fst (MaxFloat (w0\<lparr>GetTranscoderPoolSize := 0\<rparr>) sm0 7) = Returns (Inr 0)"
proof -
  let ?w1 = "w0\<lparr>GetTranscoderPoolSize := 0\<rparr>"
  have a: "GetSenderInfo w0 7 = Inr info0" "GetSenderInfo ?w1 7 = Inr info0"
    by (simp_all add: w0_def)
  have b: "0 \<le> FundsRemaining (Reserve info0) + ClaimedInCurrentRound (Reserve info0)"
    by (simp add: info0_def)
  have c: "GetTranscoderPoolSize w0 \<noteq> 0 \<longrightarrow> fst (ClaimedReserve w0 7 (claimant sm0)) = Some 1"
    "GetTranscoderPoolSize ?w1 \<noteq> 0 \<longrightarrow> fst (ClaimedReserve ?w1 7 (claimant sm0)) = Some 1"
    by (simp_all add: w0_def)
  have s: "spec_reserveAlloc info0 10 1 = 100" "spec_reserveAlloc info0 0 1 = 0"
    by (simp_all add: spec_reserveAlloc_def info0_def quot_trunc_def)
  have g: "GetTranscoderPoolSize w0 = 10" "GetTranscoderPoolSize ?w1 = 0"
    "fst (ClaimedReserve w0 7 (claimant sm0)) = Some 1"
    by (simp_all add: w0_def)
  show ?thesis
    using MaxFloat_is_reserveAlloc_minus_pending [OF a(1) b c(1)]
      MaxFloat_is_reserveAlloc_minus_pending [OF a(2) b c(2)] a b s g
    by (simp add: pendingOf_sm0)
qed

text \<open>
  C2. Once \<open>SubFloat(sender, faceValue)\<close> has run (the max float is positive and covers
  the face value), every way out of \<open>redeemWinningTicket\<close>, whatever the Broker
  answers, has invoked \<open>SubFloat\<close> once and \<open>AddFloat(sender, faceValue)\<close> once; for a
  pending amount that was not negative the deferred \<open>AddFloat\<close> succeeds, the attempt
  returns what the Broker steps returned, and every pending amount is what it was.
\<close>

theorem redeem_restores_float:
  assumes "fst (MaxFloat w sm (Sender (Ticket t))) = Returns (Inr mf)"
    and "0 < mf" and "FaceValue (Ticket t) \<le> mf"
  shows "case redeemWinningTicket w sm t of
           (r, sm', evs) \<Rightarrow>
             subFloatCalls evs = [(Sender (Ticket t), FaceValue (Ticket t))]
             \<and> addFloatCalls evs = [(Sender (Ticket t), FaceValue (Ticket t))]
             \<and> (0 \<le> pendingOf sm (Sender (Ticket t)) \<longrightarrow>
                  r = Returns (fst (submitAndCheck w t))
                  \<and> (\<forall>b. pendingOf sm' b = pendingOf sm b))"
  by (simp add: redeem_attempt [OF assms] addFloatCalls_append subFloatCalls_append
      submitAndCheck_calls AddFloat_pendingOf SubFloat_pendingOf pendingOf_ensureCache)

text \<open>
  C2 on the three ways out: a confirmed redemption, an error of
  \<open>Broker.RedeemWinningTicket\<close> and an error of \<open>Broker.CheckTx\<close>, for a ticket of face
  value 30 against a max float of 100.
\<close>

theorem redeem_restores_float_witness:
  "fst (MaxFloat w0 sm0 (Sender (Ticket t0))) = Returns (Inr 100)
   \<and> (0::int) < 100 \<and> FaceValue (Ticket t0) \<le> 100 \<and> 0 \<le> pendingOf sm0 (Sender (Ticket t0))
   \<and> fst (redeemWinningTicket w0 sm0 t0) = Returns None
   \<and> addFloatCalls (snd (snd (redeemWinningTicket w0 sm0 t0))) = [(7, 30)]
   \<and> pendingOf (fst (snd (redeemWinningTicket w0 sm0 t0))) 7 = 0
   \<and> fst (redeemWinningTicket (w0\<lparr>RedeemWinningTicket := redeemFails\<rparr>) sm0 t0)
       = Returns (Some (CollaboratorError ''RedeemWinningTicket error''))
   \<and> addFloatCalls (snd (snd (redeemWinningTicket (w0\<lparr>RedeemWinningTicket := redeemFails\<rparr>)
                                 sm0 t0))) = [(7, 30)]
   \<and> pendingOf (fst (snd (redeemWinningTicket (w0\<lparr>RedeemWinningTicket := redeemFails\<rparr>)
                            sm0 t0))) 7 = 0
   \<and> fst (redeemWinningTicket (w0\<lparr>CheckTx := checkTxFails\<rparr>) sm0 t0)
       = Returns (Some (CollaboratorError ''CheckTx error''))
   \<and> addFloatCalls (snd (snd (redeemWinningTicket (w0\<lparr>CheckTx := checkTxFails\<rparr>) sm0 t0)))
       = [(7, 30)]
   \<and> pendingOf (fst (snd (redeemWinningTicket (w0\<lparr>CheckTx := checkTxFails\<rparr>) sm0 t0))) 7 = 0"
proof -
  let ?w1 = "w0\<lparr>RedeemWinningTicket := redeemFails\<rparr>"
    and ?w2 = "w0\<lparr>CheckTx := checkTxFails\<rparr>"
  have m: "fst (MaxFloat w0 sm0 (Sender (Ticket t0))) = Returns (Inr 100)"
    "fst (MaxFloat ?w1 sm0 (Sender (Ticket t0))) = Returns (Inr 100)"
    "fst (MaxFloat ?w2 sm0 (Sender (Ticket t0))) = Returns (Inr 100)"
    by (simp_all add: ticket_fields MaxFloat_example w0_def)
  have p: "(0::int) < 100" by simp
  have f: "FaceValue (Ticket t0) \<le> 100" by (simp add: ticket_fields)
  have s: "fst (submitAndCheck w0 t0) = None"
    "fst (submitAndCheck ?w1 t0) = Some (CollaboratorError ''RedeemWinningTicket error'')"
    "fst (submitAndCheck ?w2 t0) = Some (CollaboratorError ''CheckTx error'')"
    by (simp_all add: submitAndCheck_def w0_def redeemFails_def checkTxFails_def)
  show ?thesis
    using redeem_restores_float [OF m(1) p f] redeem_restores_float [OF m(2) p f]
      redeem_restores_float [OF m(3) p f] m s
    by (simp add: case_prod_beta pendingOf_sm0 ticket_fields)
qed

text \<open>
  C3. Starting from a fresh monitor, after every call of every finite sequence of
  \<open>AddFloat\<close>, \<open>SubFloat\<close> and \<open>QueueTicket\<close> calls with non-negative amounts, the pending
  amount of every cached sender is at least 0.
\<close>

theorem pendingAmount_never_negative:
  assumes "\<forall>(w, c) \<in> set cs. 0 \<le> amount c"
    and "st \<in> set (states (NewSenderMonitor cl store i t) cs)"
    and "senders st s = Some rs"
  shows "0 \<le> pendingAmount rs"
  using states_pending_nonneg [OF assms(1) NewSenderMonitor_pending_nonneg] assms(2,3)
  by (auto simp: pending_nonneg_def)

text \<open>
  C3 on a sequence: 30 subtracted from the float of sender 7, then 10 added back; 20
  stay pending.
\<close>

theorem pendingAmount_never_negative_witness:
  "0 \<le> amount (SubFloatCall 7 30) \<and> 0 \<le> amount (AddFloatCall 7 10)
   \<and> step w0 (step w0 (NewSenderMonitor 2 (\<lambda>a. []) 60 600) (SubFloatCall 7 30))
        (AddFloatCall 7 10)
       \<in> set (states (NewSenderMonitor 2 (\<lambda>a. []) 60 600)
                [(w0, SubFloatCall 7 30), (w0, AddFloatCall 7 10)])
   \<and> senders (step w0 (step w0 (NewSenderMonitor 2 (\<lambda>a. []) 60 600) (SubFloatCall 7 30))
                (AddFloatCall 7 10)) 7
       = Some \<lparr>pendingAmount = 20, queue = 7, lastAccess = 100\<rparr>
   \<and> 0 \<le> pendingAmount \<lparr>pendingAmount = 20, queue = 7, lastAccess = 100\<rparr>"
proof -
  let ?cs = "[(w0, SubFloatCall 7 30), (w0, AddFloatCall 7 10)]"
  let ?st = "step w0 (step w0 (NewSenderMonitor 2 (\<lambda>a. []) 60 600) (SubFloatCall 7 30))
               (AddFloatCall 7 10)"
  have a: "\<forall>(w, c) \<in> set ?cs. 0 \<le> amount c" by simp
  have b: "?st \<in> set (states (NewSenderMonitor 2 (\<lambda>a. []) 60 600) ?cs)" by simp
  have c: "senders ?st 7 = Some \<lparr>pendingAmount = 20, queue = 7, lastAccess = 100\<rparr>"
    by (simp add: AddFloat_def SubFloat_def ensureCache_def cache_def NewSenderMonitor_def
        Let_def big_Cmp_def w0_def)
  from pendingAmount_never_negative [OF a b c] b c show ?thesis by simp
qed

text \<open>
  C4, as amended. \<open>AddFloat(addr, amount)\<close> returns the insufficient-pending error if and
  only if the amount exceeds the pending amount of the sender (0 for a sender that is
  not cached yet). On that error no pending amount changes, but the monitor does: it is
  left as \<open>ensureCache\<close> leaves it, the sender cached and its last access stamped. On
  success the pending amount of the sender decreases by exactly the amount and no other
  pending amount changes.
\<close>

theorem AddFloat_contract:
  "(fst (AddFloat w sm addr n) = Returns (Some InsufficientPendingAmount)
      \<longleftrightarrow> pendingOf sm addr < n)
   \<and> (fst (AddFloat w sm addr n) = Returns None \<longleftrightarrow> n \<le> pendingOf sm addr)
   \<and> (pendingOf sm addr < n \<longrightarrow>
        snd (AddFloat w sm addr n) = ensureCache w sm addr
        \<and> (\<forall>b. pendingOf (snd (AddFloat w sm addr n)) b = pendingOf sm b))
   \<and> (n \<le> pendingOf sm addr \<longrightarrow>
        pendingOf (snd (AddFloat w sm addr n)) addr = pendingOf sm addr - n
        \<and> (\<forall>b. b \<noteq> addr \<longrightarrow> pendingOf (snd (AddFloat w sm addr n)) b = pendingOf sm b))"
  by (auto simp: AddFloat_result AddFloat_error_state AddFloat_pendingOf pendingOf_ensureCache)

text \<open>
  C4 as stated fails: on a fresh monitor \<open>AddFloat\<close> of 1 for sender 7 returns the
  error, and the monitor that had no entry for the sender now has one.
\<close>

theorem AddFloat_error_modifies_state:
  "fst (AddFloat w0 sm0 7 1) = Returns (Some InsufficientPendingAmount)
   \<and> senders sm0 7 = None
   \<and> senders (snd (AddFloat w0 sm0 7 1)) 7
       = Some \<lparr>pendingAmount = 0, queue = 7, lastAccess = 100\<rparr>
   \<and> snd (AddFloat w0 sm0 7 1) \<noteq> sm0"
proof -
  have a: "fst (AddFloat w0 sm0 7 1) = Returns (Some InsufficientPendingAmount)"
    by (simp add: AddFloat_result pendingOf_sm0)
  have b: "senders sm0 7 = None" by (simp add: sm0_def NewSenderMonitor_def)
  have "pendingOf sm0 7 < 1" by (simp add: pendingOf_sm0)
  then have "snd (AddFloat w0 sm0 7 1) = ensureCache w0 sm0 7"
    by (rule AddFloat_error_state)
  then have c: "senders (snd (AddFloat w0 sm0 7 1)) 7
       = Some \<lparr>pendingAmount = 0, queue = 7, lastAccess = 100\<rparr>"
    by (simp add: ensureCache_senders_at b w0_def)
  from b c have "snd (AddFloat w0 sm0 7 1) \<noteq> sm0" by auto
  with a b c show ?thesis by simp
qed

text \<open>
  The amended C4 on a sender with 30 pending: adding 50 fails and leaves 30 pending,
  adding 10 succeeds and leaves 20.
\<close>

theorem AddFloat_contract_witness:
  "pendingOf (snd (SubFloat w0 sm0 7 30)) 7 = 30
   \<and> fst (AddFloat w0 (snd (SubFloat w0 sm0 7 30)) 7 50)
       = Returns (Some InsufficientPendingAmount)
   \<and> snd (AddFloat w0 (snd (SubFloat w0 sm0 7 30)) 7 50)
       = ensureCache w0 (snd (SubFloat w0 sm0 7 30)) 7
   \<and> pendingOf (snd (AddFloat w0 (snd (SubFloat w0 sm0 7 30)) 7 50)) 7 = 30
   \<and> fst (AddFloat w0 (snd (SubFloat w0 sm0 7 30)) 7 10) = Returns None
   \<and> pendingOf (snd (AddFloat w0 (snd (SubFloat w0 sm0 7 30)) 7 10)) 7 = 20"
proof -
  let ?sm = "snd (SubFloat w0 sm0 7 30)"
  have p: "pendingOf ?sm 7 = 30" by (simp add: SubFloat_pendingOf pendingOf_sm0)
  show ?thesis
    using AddFloat_contract [of w0 ?sm 7 50] AddFloat_contract [of w0 ?sm 7 10] p
    by (simp add: pendingOf_ensureCache)
qed

text \<open>
  C5. A ticket that \<open>redeemWinningTicket\<close> processes is handed to \<open>QueueTicket\<close> if and
  only if it fails a float check (max float at most 0, or below the face value), and
  then it is the only ticket queued, no float is subtracted or added and every pending
  amount stays as it was. The ticket store changes exactly in that case, when the store
  accepts the ticket: the ticket is appended to the queue of its sender; in every other
  case the store is what it was. A ticket that passes the float checks and fails at the
  Broker is not queued and the ticket store is untouched.
\<close>

theorem requeued_iff_float_check_fails:
  "case redeemWinningTicket w sm t of
     (r, sm', evs) \<Rightarrow>
       requeued evs = (if floatCheckFails w sm t then [t] else [])
       \<and> ticketStore sm' =
             (if floatCheckFails w sm t \<and> StoreAdd w t = None
              then (ticketStore sm)(queueOf sm (Sender (Ticket t)) :=
                      ticketStore sm (queueOf sm (Sender (Ticket t))) @ [t])
              else ticketStore sm)
       \<and> (floatCheckFails w sm t \<longrightarrow>
            (\<forall>b. pendingOf sm' b = pendingOf sm b)
            \<and> subFloatCalls evs = [] \<and> addFloatCalls evs = [])
       \<and> (floatCheckPasses w sm t \<and> brokerFails w t \<longrightarrow>
            requeued evs = [] \<and> ticketStore sm' = ticketStore sm)"
proof (cases "fst (MaxFloat w sm (Sender (Ticket t)))")
  case Panics
  then show ?thesis
    by (simp add: redeem_MaxFloat_panic floatCheckFails_def floatCheckPasses_def
        ensureCache_ticketStore)
next
  case (Returns x)
  show ?thesis
  proof (cases x)
    case (Inl e)
    with Returns show ?thesis
      by (simp add: redeem_MaxFloat_error floatCheckFails_def floatCheckPasses_def
          ensureCache_ticketStore)
  next
    case (Inr mf)
    with Returns have m: "fst (MaxFloat w sm (Sender (Ticket t))) = Returns (Inr mf)"
      by simp
    show ?thesis
    proof (cases "mf \<le> 0 \<or> mf < FaceValue (Ticket t)")
      case True
      then have f: "floatCheckFails w sm t" "\<not> floatCheckPasses w sm t"
        by (auto simp: floatCheckFails_def floatCheckPasses_def m)
      show ?thesis
      proof (cases "StoreAdd w t")
        case None
        with f show ?thesis
          by (simp add: redeem_float_check_fails [OF m True] QueueTicket_pendingOf
              pendingOf_ensureCache QueueTicket_ticketStore_success queueOf_ensureCache
              ensureCache_ticketStore)
      next
        case (Some e)
        with f show ?thesis
          by (simp add: redeem_float_check_fails [OF m True] QueueTicket_pendingOf
              pendingOf_ensureCache QueueTicket_ticketStore_failure ensureCache_ticketStore)
      qed
    next
      case False
      then have p: "0 < mf" "FaceValue (Ticket t) \<le> mf" by auto
      from False have "\<not> floatCheckFails w sm t"
        by (auto simp: floatCheckFails_def m)
      then show ?thesis
        by (simp add: redeem_attempt [OF m p] requeued_append submitAndCheck_calls
            AddFloat_ticketStore SubFloat_ticketStore ensureCache_ticketStore)
    qed
  qed
qed

text \<open>
  C5 on two tickets against a max float of 100: face value 300 fails the float check,
  is queued again and is afterwards the one ticket in the store's queue of sender 7
  (with a failing store the queue stays empty); face value 30 passes, fails at
  \<open>Broker.CheckTx\<close> and is not queued.
\<close>

theorem requeued_iff_float_check_fails_witness:
  "floatCheckFails w0 sm0 t1 \<and> StoreAdd w0 t1 = None
   \<and> requeued (snd (snd (redeemWinningTicket w0 sm0 t1))) = [t1]
   \<and> ticketStore sm0 7 = []
   \<and> ticketStore (fst (snd (redeemWinningTicket w0 sm0 t1))) 7 = [t1]
   \<and> pendingOf (fst (snd (redeemWinningTicket w0 sm0 t1))) 7 = pendingOf sm0 7
   \<and> addFloatCalls (snd (snd (redeemWinningTicket w0 sm0 t1))) = []
   \<and> floatCheckFails (w0\<lparr>StoreAdd := storeFails\<rparr>) sm0 t1
   \<and> requeued (snd (snd (redeemWinningTicket (w0\<lparr>StoreAdd := storeFails\<rparr>) sm0 t1))) = [t1]
   \<and> ticketStore (fst (snd (redeemWinningTicket (w0\<lparr>StoreAdd := storeFails\<rparr>) sm0 t1))) 7 = []
   \<and> floatCheckPasses (w0\<lparr>CheckTx := checkTxFails\<rparr>) sm0 t0
   \<and> brokerFails (w0\<lparr>CheckTx := checkTxFails\<rparr>) t0
   \<and> requeued (snd (snd (redeemWinningTicket (w0\<lparr>CheckTx := checkTxFails\<rparr>) sm0 t0))) = []
   \<and> ticketStore (fst (snd (redeemWinningTicket (w0\<lparr>CheckTx := checkTxFails\<rparr>) sm0 t0)))
       = ticketStore sm0"
proof -
  let ?w2 = "w0\<lparr>CheckTx := checkTxFails\<rparr>" and ?w3 = "w0\<lparr>StoreAdd := storeFails\<rparr>"
  have m: "fst (MaxFloat w0 sm0 7) = Returns (Inr 100)"
    "fst (MaxFloat ?w2 sm0 7) = Returns (Inr 100)"
    "fst (MaxFloat ?w3 sm0 7) = Returns (Inr 100)"
    by (simp_all add: MaxFloat_example w0_def)
  have a: "floatCheckFails w0 sm0 t1" "\<not> floatCheckFails ?w2 sm0 t0"
    "floatCheckFails ?w3 sm0 t1"
    by (simp_all add: floatCheckFails_def ticket_fields m)
  have b: "floatCheckPasses ?w2 sm0 t0"
    by (simp add: floatCheckPasses_def ticket_fields m)
  have c: "brokerFails ?w2 t0"
    by (simp add: brokerFails_def w0_def checkTxFails_def)
  have s: "StoreAdd w0 t1 = None" "StoreAdd ?w3 t1 \<noteq> None"
    by (simp_all add: w0_def storeFails_def)
  have q: "queueOf sm0 7 = 7" "ticketStore sm0 7 = []"
    by (simp_all add: sm0_def NewSenderMonitor_queueOf) (simp add: NewSenderMonitor_def)
  show ?thesis
    using requeued_iff_float_check_fails [of w0 sm0 t1]
      requeued_iff_float_check_fails [of ?w2 sm0 t0]
      requeued_iff_float_check_fails [of ?w3 sm0 t1] a b c s q
    by (simp add: case_prod_beta ticket_fields)
qed

text \<open>
  C6, as amended. \<open>newAdjustedTx\<close> returns the transaction unchanged when the gas price
  monitor has no maximum gas price. When it has one, the result is a copy of the
  transaction with the fee cap set to the maximum gas price and every other field
  unchanged, also when the fee cap was below the maximum; the result is the transaction
  itself only when the fee cap already equals the maximum.
\<close>

theorem newAdjustedTx_sets_fee_cap:
  "(maxGasPrice (gpm tm) = None \<longrightarrow> newAdjustedTx tm tx = tx)
   \<and> (\<forall>m. maxGasPrice (gpm tm) = Some m \<longrightarrow>
          newAdjustedTx tm tx = tx\<lparr>GasFeeCap := m\<rparr>
          \<and> GasFeeCap (newAdjustedTx tm tx) = m
          \<and> Nonce (newAdjustedTx tm tx) = Nonce tx
          \<and> GasTipCap (newAdjustedTx tm tx) = GasTipCap tx
          \<and> Gas (newAdjustedTx tm tx) = Gas tx
          \<and> Value (newAdjustedTx tm tx) = Value tx
          \<and> Data (newAdjustedTx tm tx) = Data tx
          \<and> To (newAdjustedTx tm tx) = To tx
          \<and> (newAdjustedTx tm tx = tx \<longleftrightarrow> m = GasFeeCap tx))"
proof -
  have "tx\<lparr>GasFeeCap := m\<rparr> = tx \<longleftrightarrow> m = GasFeeCap tx" for m
  proof
    assume "tx\<lparr>GasFeeCap := m\<rparr> = tx"
    then have "GasFeeCap (tx\<lparr>GasFeeCap := m\<rparr>) = GasFeeCap tx" by simp
    then show "m = GasFeeCap tx" by simp
  qed simp
  then show ?thesis by (simp add: newAdjustedTx_def)
qed

text \<open>
  C6 as stated fails at the input of \<open>TestNewAdjustedTx\<close>: the fee cap 1000 does not
  exceed the maximum gas price 1100, and the result is not the transaction but a copy
  with fee cap 1100.
\<close>

theorem newAdjustedTx_not_identity_below_max:
  "maxGasPrice (gpm tm1) = Some 1100 \<and> GasFeeCap tx0 = 1000
   \<and> newAdjustedTx tm1 tx0 \<noteq> tx0
   \<and> GasFeeCap (newAdjustedTx tm1 tx0) = 1100"
proof -
  have a: "maxGasPrice (gpm tm1) = Some 1100" by (simp add: tm1_def)
  have b: "GasFeeCap tx0 = 1000" by (simp add: tx0_def newStubDynamicFeeTx_def)
  have c: "GasFeeCap (newAdjustedTx tm1 tx0) = 1100" by (simp add: newAdjustedTx_def a)
  from b c have "newAdjustedTx tm1 tx0 \<noteq> tx0" by auto
  with a b c show ?thesis by simp
qed

text \<open>
  The amended C6 on the transaction of the test: unchanged without a maximum, fee cap
  1100 and tip cap 100 with the maximum 1100.
\<close>

theorem newAdjustedTx_sets_fee_cap_witness:
  "maxGasPrice (gpm tm0) = None \<and> newAdjustedTx tm0 tx0 = tx0
   \<and> maxGasPrice (gpm tm1) = Some 1100
   \<and> GasFeeCap (newAdjustedTx tm1 tx0) = 1100
   \<and> GasTipCap (newAdjustedTx tm1 tx0) = 100
   \<and> Nonce (newAdjustedTx tm1 tx0) = 1
   \<and> To (newAdjustedTx tm1 tx0) = Some 9"
proof -
  have a: "maxGasPrice (gpm tm0) = None" "maxGasPrice (gpm tm1) = Some 1100"
    by (simp_all add: tm0_def tm1_def)
  have f: "GasTipCap tx0 = 100" "Nonce tx0 = 1" "To tx0 = Some 9"
    by (simp_all add: tx0_def newStubDynamicFeeTx_def)
  show ?thesis
    using newAdjustedTx_sets_fee_cap [of tm0 tx0] newAdjustedTx_sets_fee_cap [of tm1 tx0] a f
    by simp
qed

text \<open>
  C7. The claim is that a failure of \<open>GetSenderInfo\<close> or of \<open>ClaimedReserve\<close> surfaces
  as an error of \<open>MaxFloat\<close>. \<open>reserveAlloc\<close> assigns the error of \<open>ClaimedReserve\<close> and
  never looks at it: with a failing \<open>ClaimedReserve\<close>, \<open>MaxFloat\<close> returns 0 without
  an error for an empty pool, returns a max float computed from the value that came
  with the error for a pool of 10, and panics on the nil pointer when no value came.
\<close>

theorem MaxFloat_ignores_ClaimedReserve_error:
  "snd (ClaimedReserve (w0\<lparr>ClaimedReserve := claimedReserveFails None\<rparr>) 7 (claimant sm0))
     = Some (CollaboratorError ''ClaimedReserve error'')
   \<and> fst (MaxFloat (w0\<lparr>ClaimedReserve := claimedReserveFails None,
                        GetTranscoderPoolSize := 0\<rparr>) sm0 7) = Returns (Inr 0)
   \<and> fst (MaxFloat (w0\<lparr>ClaimedReserve := claimedReserveFails (Some 1)\<rparr>) sm0 7)
       = Returns (Inr 100)
   \<and> fst (MaxFloat (w0\<lparr>ClaimedReserve := claimedReserveFails None\<rparr>) sm0 7) = Panics"
  by (simp add: MaxFloat_def maxFloat_def reserveAlloc_def Let_def w0_def sm0_def info0_def
      NewSenderMonitor_def ensureCache_def cache_def big_Cmp_def big_Div_def
      claimedReserveFails_def)

text \<open>
  C8. Given that \<open>GetSenderInfo\<close> succeeds, \<open>ValidateSender\<close> returns an error if and
  only if the withdraw round is not 0 and at most \<open>lastInitializedRound + 1\<close>; a
  withdraw round of 0 always succeeds, and so does every withdraw round above
  \<open>lastInitializedRound + 1\<close>. The equivalence is for withdraw rounds of magnitude below
  \<open>2 ^ 64\<close>, which covers every value \<open>Int64()\<close> is documented for; the code tests
  \<open>Int64()\<close> of the round against 0.
\<close>

theorem ValidateSender_error_iff:
  assumes "GetSenderInfo w addr = Inr info"
  shows "(\<bar>WithdrawRound info\<bar> < 2 ^ 64 \<longrightarrow>
            (ValidateSender w sm addr \<noteq> None \<longleftrightarrow>
               WithdrawRound info \<noteq> 0 \<and> WithdrawRound info \<le> LastInitializedRound w + 1))
         \<and> (WithdrawRound info = 0 \<longrightarrow> ValidateSender w sm addr = None)
         \<and> (LastInitializedRound w + 1 < WithdrawRound info
              \<longrightarrow> ValidateSender w sm addr = None)"
  using dvd_small_iff [of "WithdrawRound info"]
  by (auto simp: ValidateSender_exact [OF assms])

text \<open>
  C8 with the last initialized round 5: a withdraw round of 6 is refused, 0 and 7 are
  accepted.
\<close>

theorem ValidateSender_error_iff_witness:
  "GetSenderInfo (w0\<lparr>GetSenderInfo := withdrawAt 6\<rparr>) 7 = Inr (info0\<lparr>WithdrawRound := 6\<rparr>)
   \<and> \<bar>6 :: int\<bar> < 2 ^ 64 \<and> (6 :: int) \<noteq> 0 \<and> (6 :: int) \<le> 5 + 1
   \<and> ValidateSender (w0\<lparr>GetSenderInfo := withdrawAt 6\<rparr>) sm0 7 \<noteq> None
   \<and> ValidateSender (w0\<lparr>GetSenderInfo := withdrawAt 0\<rparr>) sm0 7 = None
   \<and> (5 :: int) + 1 < 7
   \<and> ValidateSender (w0\<lparr>GetSenderInfo := withdrawAt 7\<rparr>) sm0 7 = None"
proof -
  have a: "GetSenderInfo (w0\<lparr>GetSenderInfo := withdrawAt r\<rparr>) 7
             = Inr (info0\<lparr>WithdrawRound := r\<rparr>)" for r
    by (simp add: withdrawAt_def)
  have l: "LastInitializedRound (w0\<lparr>GetSenderInfo := withdrawAt r\<rparr>) = 5" for r
    by (simp add: w0_def)
  show ?thesis
    using ValidateSender_error_iff [OF a [of 6], of sm0]
      ValidateSender_error_iff [OF a [of 0], of sm0]
      ValidateSender_error_iff [OF a [of 7], of sm0] a [of 6]
    by (simp add: l)
qed

text \<open>
  C9. For non-negative \<open>x\<close> and \<open>p\<close>, \<open>applyPriceBump x p\<close> is the floor of
  \<open>x (100 + p) / 100\<close>; so \<open>applyPriceBump x 0 = x\<close>, and \<open>applyPriceBump x p\<close> does
  not decrease when \<open>p\<close> grows.
\<close>

theorem applyPriceBump_floor:
  assumes "0 \<le> x"
  shows "applyPriceBump x p = \<lfloor>real_of_int x * (100 + real p) / 100\<rfloor>
         \<and> applyPriceBump x 0 = x
         \<and> (\<forall>q. p \<le> q \<longrightarrow> applyPriceBump x p \<le> applyPriceBump x q)"
proof -
  have "real_of_int x * (100 + real p) / 100 = of_int (x * (100 + int p)) / of_int 100"
    by simp
  then have "\<lfloor>real_of_int x * (100 + real p) / 100\<rfloor> = (x * (100 + int p)) div 100"
    by (simp only: floor_divide_of_int_eq)
  moreover have "p \<le> q \<Longrightarrow> (x * (100 + int p)) div 100 \<le> (x * (100 + int q)) div 100" for q
    using assms by (intro zdiv_mono1 mult_left_mono) simp_all
  ultimately show ?thesis
    using assms by (simp add: applyPriceBump_div)
qed

text \<open>C9 on the rounding case of the test: 50 bumped by 11 is 55.5, rounded down to 55.\<close>

theorem applyPriceBump_floor_witness:
  "(0::int) \<le> 50 \<and> applyPriceBump 50 11 = \<lfloor>real_of_int 50 * (100 + real 11) / 100\<rfloor>
   \<and> applyPriceBump 50 11 = 55 \<and> applyPriceBump 50 0 = 50
   \<and> (11::nat) \<le> 17 \<and> applyPriceBump 50 11 \<le> applyPriceBump 50 17"
proof -
  have h: "(0::int) \<le> 50" by simp
  have e: "applyPriceBump 50 11 = 55" by (simp add: applyPriceBump_def quot_trunc_def)
  from applyPriceBump_floor [OF h, of 11] e show ?thesis by simp
qed

text \<open>
  C10. When a float check fails, the error that \<open>redeemWinningTicket\<close> returns is the
  float condition alone, whatever \<open>QueueTicket\<close> returned: replacing the answer of the
  ticket store by any other leaves the returned value the same. When the store fails,
  \<open>QueueTicket\<close> does return the store's error, and the ticket is in no queue
  afterwards.
\<close>

theorem requeue_error_discarded:
  assumes "fst (MaxFloat w sm (Sender (Ticket t))) = Returns (Inr mf)"
    and "mf \<le> 0 \<or> mf < FaceValue (Ticket t)"
  shows "fst (redeemWinningTicket w sm t) =
           Returns (Some (if mf \<le> 0 then MaxFloatIsZero
                          else InsufficientMaxFloat (Sender (Ticket t))
                                 (FaceValue (Ticket t)) mf))
         \<and> fst (redeemWinningTicket (w\<lparr>StoreAdd := f\<rparr>) sm t) = fst (redeemWinningTicket w sm t)
         \<and> (StoreAdd w t \<noteq> None \<longrightarrow>
              fst (QueueTicket w (snd (MaxFloat w sm (Sender (Ticket t)))) t)
                = Returns (StoreAdd w t)
              \<and> ticketStore (fst (snd (redeemWinningTicket w sm t))) = ticketStore sm)"
proof -
  have m': "fst (MaxFloat (w\<lparr>StoreAdd := f\<rparr>) sm (Sender (Ticket t))) = Returns (Inr mf)"
    using assms(1) by (simp add: MaxFloat_StoreAdd)
  show ?thesis
    by (simp add: redeem_float_check_fails [OF assms]
        redeem_float_check_fails [OF m' assms(2)]
        QueueTicket_result QueueTicket_ticketStore_failure ensureCache_ticketStore)
qed

text \<open>
  C10 on a ticket of face value 300 against a max float of 100 and a failing store: the
  attempt reports the insufficient max float, as it does with a working store, and the
  store holds no ticket for the sender.
\<close>

theorem requeue_error_discarded_witness:
  "fst (MaxFloat (w0\<lparr>StoreAdd := storeFails\<rparr>) sm0 (Sender (Ticket t1))) = Returns (Inr 100)
   \<and> ((100::int) \<le> 0 \<or> 100 < FaceValue (Ticket t1))
   \<and> StoreAdd (w0\<lparr>StoreAdd := storeFails\<rparr>) t1 = Some (CollaboratorError ''TicketStore error'')
   \<and> fst (redeemWinningTicket (w0\<lparr>StoreAdd := storeFails\<rparr>) sm0 t1)
       = Returns (Some (InsufficientMaxFloat 7 300 100))
   \<and> fst (redeemWinningTicket (w0\<lparr>StoreAdd := storeFails, StoreAdd := (\<lambda>t. None)\<rparr>) sm0 t1)
       = Returns (Some (InsufficientMaxFloat 7 300 100))
   \<and> ticketStore (fst (snd (redeemWinningTicket (w0\<lparr>StoreAdd := storeFails\<rparr>) sm0 t1))) 7 = []"
proof -
  let ?w3 = "w0\<lparr>StoreAdd := storeFails\<rparr>"
  have m: "fst (MaxFloat ?w3 sm0 (Sender (Ticket t1))) = Returns (Inr 100)"
    by (simp add: ticket_fields MaxFloat_example w0_def)
  have c: "(100::int) \<le> 0 \<or> 100 < FaceValue (Ticket t1)" by (simp add: ticket_fields)
  have s: "StoreAdd ?w3 t1 = Some (CollaboratorError ''TicketStore error'')"
    by (simp add: storeFails_def)
  have e: "ticketStore sm0 7 = []" by (simp add: sm0_def NewSenderMonitor_def)
  show ?thesis
    using requeue_error_discarded [OF m c, of "\<lambda>t. None"] m c s e
    by (simp add: ticket_fields)
qed

end
